theory Spec2Isabelle
  imports Main
begin

section \<open>Push-to-talk trigger (global keyboard hook)\<close>

text \<open>
  The trigger layer keeps one mutable \<open>state\<close> object and two handlers that the keyboard
  hook calls with the keycode of every key-down and key-up. The handlers are synchronous
  straight-line code; the model gives each invocation the clock reading \<open>now\<close>
  (milliseconds, the value of \<open>Date.now()\<close> during the call) and returns the updated
  state together with the effects performed, in order: console output and callback
  invocations. The keycode bound to \<open>UiohookKey.AltRight\<close> belongs to the hook library and
  is a parameter.
\<close>

record config =
  pushToTalkKey :: int
  debounceMs :: int
  minRecordingMs :: int

definition CONFIG :: "int \<Rightarrow> config" where
  "CONFIG AltRight = \<lparr>pushToTalkKey = AltRight, debounceMs = 50, minRecordingMs = 200\<rparr>"

record 'cb State =
  isKeyHeld :: bool
  lastKeyDownTime :: int
  lastKeyUpTime :: int
  recordingStartTime :: int
  onStart :: "'cb option"
  onStop :: "'cb option"

definition state :: "'cb State" where
  "state = \<lparr>isKeyHeld = False, lastKeyDownTime = 0, lastKeyUpTime = 0,
     recordingStartTime = 0, onStart = None, onStop = None\<rparr>"

datatype 'cb effect = ConsoleLog string | CallStart 'cb | CallStop 'cb

text \<open>\<open>cb?.()\<close>: the stored callback is invoked when it is not null.\<close>

definition callStart :: "'cb option \<Rightarrow> 'cb effect list" where
  "callStart cb = (case cb of None \<Rightarrow> [] | Some f \<Rightarrow> [CallStart f])"

definition callStop :: "'cb option \<Rightarrow> 'cb effect list" where
  "callStop cb = (case cb of None \<Rightarrow> [] | Some f \<Rightarrow> [CallStop f])"

definition isDebounced :: "int \<Rightarrow> int \<Rightarrow> int \<Rightarrow> bool" where
  "isDebounced AltRight now lastTime \<longleftrightarrow> now - lastTime < debounceMs (CONFIG AltRight)"

definition handleKeyDown :: "int \<Rightarrow> int \<Rightarrow> int \<Rightarrow> 'cb State \<Rightarrow> 'cb State \<times> 'cb effect list" where
  "handleKeyDown AltRight now keycode s =
     (if keycode \<noteq> pushToTalkKey (CONFIG AltRight) then (s, [])
      else if isDebounced AltRight now (lastKeyDownTime s) then (s, [])
      else if isKeyHeld s then (s, [])
      else (s\<lparr>isKeyHeld := True, lastKeyDownTime := now, recordingStartTime := now\<rparr>,
            ConsoleLog ''Push-to-talk: START'' # callStart (onStart s)))"

definition handleKeyUp :: "int \<Rightarrow> int \<Rightarrow> int \<Rightarrow> 'cb State \<Rightarrow> 'cb State \<times> 'cb effect list" where
  "handleKeyUp AltRight now keycode s =
     (if keycode \<noteq> pushToTalkKey (CONFIG AltRight) then (s, [])
      else if \<not> isKeyHeld s then (s, [])
      else if isDebounced AltRight now (lastKeyUpTime s) then (s, [])
      else if now - recordingStartTime s < minRecordingMs (CONFIG AltRight)
        then (s\<lparr>isKeyHeld := False\<rparr>, [ConsoleLog ''Recording too short, ignoring''])
      else (s\<lparr>isKeyHeld := False, lastKeyUpTime := now\<rparr>,
            ConsoleLog ''Push-to-talk: STOP'' # callStop (onStop s)))"

text \<open>
  \<open>registerPushToTalk\<close> stores the two callbacks and subscribes the handlers to the hook;
  \<open>unregisterPushToTalk\<close> stops the hook, forgets the callbacks and clears the held flag.
\<close>

definition registerPushToTalk :: "'cb \<Rightarrow> 'cb \<Rightarrow> 'cb State \<Rightarrow> 'cb State \<times> 'cb effect list" where
  "registerPushToTalk start stop s =
     (s\<lparr>onStart := Some start, onStop := Some stop\<rparr>,
      [ConsoleLog ''Push-to-talk registered: Hold Right Alt to record''])"

definition unregisterPushToTalk :: "'cb State \<Rightarrow> 'cb State" where
  "unregisterPushToTalk s = s\<lparr>onStart := None, onStop := None, isKeyHeld := False\<rparr>"

text \<open>
  The hook delivers a stream of raw key events, each with the time of its delivery;
  \<open>dispatch\<close> is the subscription made by \<open>registerPushToTalk\<close>, and \<open>run\<close> feeds a
  finite stream through it, collecting the effects.
\<close>

datatype key_event = KeyDown int | KeyUp int

fun dispatch :: "int \<Rightarrow> int \<Rightarrow> key_event \<Rightarrow> 'cb State \<Rightarrow> 'cb State \<times> 'cb effect list" where
  "dispatch AltRight now (KeyDown keycode) s = handleKeyDown AltRight now keycode s"
| "dispatch AltRight now (KeyUp keycode) s = handleKeyUp AltRight now keycode s"

fun run :: "int \<Rightarrow> (int \<times> key_event) list \<Rightarrow> 'cb State \<Rightarrow> 'cb State \<times> 'cb effect list" where
  "run AltRight [] s = (s, [])"
| "run AltRight ((now, ev) # evs) s =
     (case dispatch AltRight now ev s of (s1, e1) \<Rightarrow>
        (case run AltRight evs s1 of (s2, e2) \<Rightarrow> (s2, e1 @ e2)))"

text \<open>Observations on an effect trace: the callback invocations in it.\<close>

fun isCall :: "'cb effect \<Rightarrow> bool" where
  "isCall (ConsoleLog _) = False"
| "isCall (CallStart _) = True"
| "isCall (CallStop _) = True"

fun isStart :: "'cb effect \<Rightarrow> bool" where
  "isStart (CallStart _) = True"
| "isStart _ = False"

fun isStop :: "'cb effect \<Rightarrow> bool" where
  "isStop (CallStop _) = True"
| "isStop _ = False"

definition callbacks :: "'cb effect list \<Rightarrow> 'cb effect list" where
  "callbacks es = filter isCall es"

definition starts :: "'cb effect list \<Rightarrow> nat" where
  "starts es = length (filter isStart es)"

text \<open>The number of steps of a run in which the held flag goes from set to clear.\<close>

fun releases :: "int \<Rightarrow> (int \<times> key_event) list \<Rightarrow> 'cb State \<Rightarrow> nat" where
  "releases AltRight [] s = 0"
| "releases AltRight ((now, ev) # evs) s =
     (let s1 = fst (dispatch AltRight now ev s)
      in (if isKeyHeld s \<and> \<not> isKeyHeld s1 then 1 else 0) + releases AltRight evs s1)"

section \<open>Status values\<close>


section \<open>Window manager\<close>

text \<open>
  The floating window is a \<open>BrowserWindow\<close> or null; the manager remembers the height it
  applied last. The layout constants and \<open>screenHeight\<close> are used by the source but not
  declared in it: they are parameters, collected in \<open>layout\<close>. Pixel values are integers.
\<close>

record Rectangle =
  rect_x :: int
  rect_y :: int
  rect_width :: int
  rect_height :: int

record layout =
  MIN_HEIGHT :: int
  MAX_HEIGHT :: int
  CHROME_HEIGHT :: int
  DEBOUNCE_THRESHOLD :: int
  BOTTOM_OFFSET :: int
  WIDTH :: int
  screenHeight :: int
  createBounds :: Rectangle

record BrowserWindow =
  visible :: bool
  bounds :: Rectangle

record WindowManager =
  window :: "BrowserWindow option"
  currentHeight :: int

definition windowManager :: "layout \<Rightarrow> WindowManager" where
  "windowManager lay = \<lparr>window = None, currentHeight = MIN_HEIGHT lay\<rparr>"

datatype error = TypeError

text \<open>
  What a method does to the window and to the renderer is recorded, in order, as a list
  of effects.
\<close>

datatype wm_effect =
    Create
  | ResetHeightSync
  | ClearPreviousContent
  | ShowInactive
  | HideWindow
  | SetBounds Rectangle
  | Send string string

text \<open>\<open>this.window?.isVisible() ?? false\<close>\<close>

definition isVisible :: "WindowManager \<Rightarrow> bool" where
  "isVisible wm = (case window wm of None \<Rightarrow> False | Some w \<Rightarrow> visible w)"

text \<open>
  Modelled from the spec: \<open>create\<close>, \<open>resetHeightSync\<close> and \<open>clearPreviousContent\<close> are
  called by \<open>show\<close> but their bodies are not in the source. The window is created hidden
  (\<open>null \<rightarrow> create() \<rightarrow> hidden\<close>), with bounds given by the layout; the first-time setup
  is "reset stored height, clear stale content": \<open>resetHeightSync\<close> puts the stored
  height back to \<open>MIN_HEIGHT\<close>, \<open>clearPreviousContent\<close> touches only the renderer. Each
  leaves its mark in the effect list.
\<close>

definition create :: "layout \<Rightarrow> WindowManager \<Rightarrow> WindowManager \<times> wm_effect list" where
  "create lay wm =
     (wm\<lparr>window := Some \<lparr>visible = False, bounds = createBounds lay\<rparr>\<rparr>, [Create])"

definition resetHeightSync :: "layout \<Rightarrow> WindowManager \<Rightarrow> WindowManager \<times> wm_effect list" where
  "resetHeightSync lay wm = (wm\<lparr>currentHeight := MIN_HEIGHT lay\<rparr>, [ResetHeightSync])"

definition clearPreviousContent :: "WindowManager \<Rightarrow> WindowManager \<times> wm_effect list" where
  "clearPreviousContent wm = (wm, [ClearPreviousContent])"

text \<open>\<open>this.window?.showInactive()\<close> and \<open>this.window?.hide()\<close>: nothing happens on null.\<close>

definition showInactive :: "WindowManager \<Rightarrow> WindowManager \<times> wm_effect list" where
  "showInactive wm =
     (case window wm of
        None \<Rightarrow> (wm, [])
      | Some w \<Rightarrow> (wm\<lparr>window := Some (w\<lparr>visible := True\<rparr>)\<rparr>, [ShowInactive]))"

definition show_window :: "layout \<Rightarrow> WindowManager \<Rightarrow> WindowManager \<times> wm_effect list" where
  "show_window lay wm =
     (case (if window wm = None then create lay wm else (wm, [])) of (wm1, e1) \<Rightarrow>
        let wasVisible = isVisible wm1 in
        (case (if \<not> wasVisible
               then (case resetHeightSync lay wm1 of (wm', r) \<Rightarrow>
                       (case clearPreviousContent wm' of (wm'', c) \<Rightarrow> (wm'', r @ c)))
               else (wm1, [])) of (wm2, e2) \<Rightarrow>
           (case showInactive wm2 of (wm3, e3) \<Rightarrow> (wm3, e1 @ e2 @ e3))))"

definition hide :: "layout \<Rightarrow> WindowManager \<Rightarrow> WindowManager \<times> wm_effect list" where
  "hide lay wm =
     (case window wm of
        None \<Rightarrow> (wm\<lparr>currentHeight := MIN_HEIGHT lay\<rparr>, [])
      | Some w \<Rightarrow>
          (wm\<lparr>window := Some (w\<lparr>visible := False\<rparr>), currentHeight := MIN_HEIGHT lay\<rparr>,
           [HideWindow]))"

text \<open>
  \<open>setContentHeight\<close> and the last line of \<open>sendStatus\<close> dereference \<open>this.window\<close>
  without \<open>?.\<close>: on null that is a TypeError, raised before anything has been changed.
\<close>

definition targetHeightOf :: "layout \<Rightarrow> int \<Rightarrow> int" where
  "targetHeightOf lay contentHeight = min (CHROME_HEIGHT lay + contentHeight) (MAX_HEIGHT lay)"

definition setContentHeight ::
  "layout \<Rightarrow> int \<Rightarrow> WindowManager \<Rightarrow> error + WindowManager \<times> wm_effect list" where
  "setContentHeight lay contentHeight wm =
     (let targetHeight = targetHeightOf lay contentHeight in
      if \<bar>targetHeight - currentHeight wm\<bar> < DEBOUNCE_THRESHOLD lay then Inr (wm, [])
      else (case window wm of
              None \<Rightarrow> Inl TypeError
            | Some w \<Rightarrow>
                let newY = screenHeight lay - targetHeight - BOTTOM_OFFSET lay;
                    b = \<lparr>rect_x = rect_x (bounds w), rect_y = newY,
                         rect_width = WIDTH lay, rect_height = targetHeight\<rparr>
                in Inr (wm\<lparr>window := Some (w\<lparr>bounds := b\<rparr>), currentHeight := targetHeight\<rparr>,
                        [SetBounds b])))"

definition shouldBeVisible :: "string \<Rightarrow> bool" where
  "shouldBeVisible status \<longleftrightarrow> status \<in> set [''connecting'', ''listening'', ''processing'']"

definition sendStatus ::
  "layout \<Rightarrow> string \<Rightarrow> WindowManager \<Rightarrow> error + WindowManager \<times> wm_effect list" where
  "sendStatus lay status wm =
     (let shouldHide = (status = ''idle'')
      in case (if shouldBeVisible status then show_window lay wm else (wm, [])) of (wm1, e1) \<Rightarrow>
           if shouldHide then (case hide lay wm1 of (wm2, e2) \<Rightarrow> Inr (wm2, e1 @ e2))
           else (case window wm1 of
                   None \<Rightarrow> Inl TypeError
                 | Some w \<Rightarrow> Inr (wm1, e1 @ [Send ''status'' status])))"

text \<open>Observations: the bottom edge of a rectangle, and what a trace sends to the renderer.\<close>

definition bottomEdge :: "Rectangle \<Rightarrow> int" where
  "bottomEdge b = rect_y b + rect_height b"

fun isSend :: "wm_effect \<Rightarrow> bool" where
  "isSend (Send _ _) = True"
| "isSend _ = False"

text \<open>A sequence of \<open>show()\<close> and \<open>hide()\<close> calls, and the hidden-to-visible edges in it.\<close>

datatype wm_call = CallShow | CallHide

fun call :: "layout \<Rightarrow> wm_call \<Rightarrow> WindowManager \<Rightarrow> WindowManager \<times> wm_effect list" where
  "call lay CallShow wm = show_window lay wm"
| "call lay CallHide wm = hide lay wm"

fun calls :: "layout \<Rightarrow> wm_call list \<Rightarrow> WindowManager \<Rightarrow> WindowManager \<times> wm_effect list" where
  "calls lay [] wm = (wm, [])"
| "calls lay (c # cs) wm =
     (case call lay c wm of (wm1, e1) \<Rightarrow>
        (case calls lay cs wm1 of (wm2, e2) \<Rightarrow> (wm2, e1 @ e2)))"

fun edges :: "layout \<Rightarrow> wm_call list \<Rightarrow> WindowManager \<Rightarrow> nat" where
  "edges lay [] wm = 0"
| "edges lay (c # cs) wm =
     (let wm1 = fst (call lay c wm)
      in (if \<not> isVisible wm \<and> isVisible wm1 then 1 else 0) + edges lay cs wm1)"

section \<open>ASR IPC handlers\<close>

text \<open>
  The main process registers one handler per invoke channel and a list of listeners per
  message channel. A handler is an \<open>async\<close> function of the IPC event and the
  arguments of the call: it yields a promise, resolved with a reply or rejected, and the
  actions it took on the speech service. The stub handlers take none. The handlers are
  registered once, on the registry \<open>ipcMain\<close> of a starting application.
\<close>

definition ASR_START :: string where "ASR_START = ''asr:start''"
definition ASR_STOP :: string where "ASR_STOP = ''asr:stop''"
definition ASR_SEND_AUDIO :: string where "ASR_SEND_AUDIO = ''asr:send-audio''"

datatype json =
    JUndefined | JNull | JBool bool | JNum int | JStr string
  | JArr "json list" | JObj "(string \<times> json) list"

record reply =
  success :: bool

datatype 'a promise = Resolved 'a | Rejected string

datatype asr_action = StartAudioCapture | ConnectWebSocket | StopAudioCapture | CloseWebSocket

type_synonym 'e handler = "'e \<Rightarrow> json list \<Rightarrow> asr_action list \<times> reply promise"
type_synonym 'e listener = "'e \<Rightarrow> json list \<Rightarrow> asr_action list"

record 'e IpcMain =
  handlers :: "string \<rightharpoonup> 'e handler"
  listeners :: "string \<Rightarrow> 'e listener list"

definition ipcMain :: "'e IpcMain" where
  "ipcMain = \<lparr>handlers = Map.empty, listeners = (\<lambda>_. [])\<rparr>"

definition ipcMain_handle :: "string \<Rightarrow> 'e handler \<Rightarrow> 'e IpcMain \<Rightarrow> 'e IpcMain" where
  "ipcMain_handle channel h m = m\<lparr>handlers := (handlers m)(channel \<mapsto> h)\<rparr>"

definition ipcMain_on :: "string \<Rightarrow> 'e listener \<Rightarrow> 'e IpcMain \<Rightarrow> 'e IpcMain" where
  "ipcMain_on channel l m = m\<lparr>listeners := (listeners m)(channel := listeners m channel @ [l])\<rparr>"

definition setupASRHandlers :: "'e IpcMain \<Rightarrow> 'e IpcMain" where
  "setupASRHandlers m =
     ipcMain_on ASR_SEND_AUDIO (\<lambda>event chunk. [])
       (ipcMain_handle ASR_STOP (\<lambda>event args. ([], Resolved \<lparr>success = True\<rparr>))
          (ipcMain_handle ASR_START (\<lambda>event config. ([], Resolved \<lparr>success = True\<rparr>)) m))"

definition setupAllIpcHandlers :: "'e IpcMain \<Rightarrow> 'e IpcMain" where
  "setupAllIpcHandlers m = setupASRHandlers m"

text \<open>A renderer's \<open>invoke\<close> on a channel runs the handler registered for it, if any.\<close>

definition invoke :: "'e IpcMain \<Rightarrow> string \<Rightarrow> 'e \<Rightarrow> json list \<Rightarrow> asr_action list \<times> reply promise" where
  "invoke m channel event args =
     (case handlers m channel of
        None \<Rightarrow> ([], Rejected (''No handler registered for '' @ channel))
      | Some h \<Rightarrow> h event args)"

section \<open>Example configurations\<close>

text \<open>
  A registered trigger bound to keycode 3640, the same trigger while the key is held, and
  a layout with a 4 px debounce threshold together with a visible window of height 100.
\<close>

definition registered :: "string State" where
  "registered = fst (registerPushToTalk ''start'' ''stop'' state)"

definition held :: "string State" where
  "held = fst (handleKeyDown 3640 1000 3640 registered)"

definition exampleLayout :: layout where
  "exampleLayout = \<lparr>MIN_HEIGHT = 60, MAX_HEIGHT = 400, CHROME_HEIGHT = 40,
     DEBOUNCE_THRESHOLD = 4, BOTTOM_OFFSET = 50, WIDTH = 400, screenHeight = 1080,
     createBounds = \<lparr>rect_x = 100, rect_y = 970, rect_width = 400, rect_height = 60\<rparr>\<rparr>"

definition exampleWindow :: WindowManager where
  "exampleWindow = \<lparr>window = Some \<lparr>visible = True,
       bounds = \<lparr>rect_x = 100, rect_y = 930, rect_width = 400, rect_height = 100\<rparr>\<rparr>,
     currentHeight = 100\<rparr>"

section \<open>Properties of the trigger\<close>

lemma starts_append: "starts (xs @ ys) = starts xs + starts ys"
  by (simp add: starts_def)

lemma dispatch_step_balance:
  "dispatch k now ev s = (s1, e1) \<Longrightarrow>
     starts e1 + (if isKeyHeld s then 1 else 0)
       \<le> (if isKeyHeld s \<and> \<not> isKeyHeld s1 then 1 else 0) + (if isKeyHeld s1 then 1 else 0)"
  by (cases ev)
     (auto simp add: handleKeyDown_def handleKeyUp_def starts_def callStart_def callStop_def
       split: if_splits option.splits)

text \<open>
  Along any run, every start that fires is paid for by the held flag being clear before
  it: starts, plus one if the key is held at the beginning, never exceed the releases of
  the held flag, plus one if the key is held at the end.
\<close>

lemma run_balance:
  "starts (snd (run k evs s)) + (if isKeyHeld s then 1 else 0)
     \<le> releases k evs s + (if isKeyHeld (fst (run k evs s)) then 1 else 0)"
proof (induction evs arbitrary: s)
  case Nil
  show ?case by (simp add: starts_def)
next
  case (Cons a evs)
  obtain now ev where a: "a = (now, ev)" by (cases a)
  obtain s1 e1 where d: "dispatch k now ev s = (s1, e1)" by (cases "dispatch k now ev s")
  obtain s2 e2 where r: "run k evs s1 = (s2, e2)" by (cases "run k evs s1")
  have step: "starts e1 + (if isKeyHeld s then 1 else 0)
       \<le> (if isKeyHeld s \<and> \<not> isKeyHeld s1 then 1 else 0) + (if isKeyHeld s1 then 1 else 0)"
    using dispatch_step_balance [OF d] .
  have rest: "starts e2 + (if isKeyHeld s1 then 1 else 0)
       \<le> releases k evs s1 + (if isKeyHeld s2 then 1 else 0)"
    using Cons.IH [of s1] r by simp
  have "starts (e1 @ e2) + (if isKeyHeld s then 1 else 0)
      \<le> ((if isKeyHeld s \<and> \<not> isKeyHeld s1 then 1 else 0) + releases k evs s1)
         + (if isKeyHeld s2 then 1 else 0)"
    using step rest unfolding starts_append by linarith
  then show ?case using a d r by simp
qed

lemma registered_simp:
  "registered = \<lparr>isKeyHeld = False, lastKeyDownTime = 0, lastKeyUpTime = 0,
     recordingStartTime = 0, onStart = Some ''start'', onStop = Some ''stop''\<rparr>"
  by (simp add: registered_def registerPushToTalk_def state_def)

lemma held_simp:
  "held = \<lparr>isKeyHeld = True, lastKeyDownTime = 1000, lastKeyUpTime = 0,
     recordingStartTime = 1000, onStart = Some ''start'', onStop = Some ''stop''\<rparr>"
  by (simp add: held_def registered_simp handleKeyDown_def isDebounced_def CONFIG_def)

text \<open>
  A release that comes less than \<open>minRecordingMs\<close> after an accepted engagement takes the
  "too short" branch at the latest: it invokes no callback.
\<close>

lemma short_hold_release_invokes_nothing:
  assumes "\<not> isKeyHeld s"
    and "\<not> isDebounced AltRight t0 (lastKeyDownTime s)"
    and "t1 - t0 < minRecordingMs (CONFIG AltRight)"
    and "key = pushToTalkKey (CONFIG AltRight)"
  shows "callbacks (snd (handleKeyUp AltRight t1 key (fst (handleKeyDown AltRight t0 key s)))) = []"
  using assms
  by (auto simp add: handleKeyDown_def handleKeyUp_def callbacks_def)

text \<open>
  C1. The pair is not discarded as a whole. Engage at 1000 ms, release 150 ms later, less
  than the 200 ms minimum: the release is ignored as too short and the held flag is
  cleared, but the start callback has been invoked at the engagement and nothing takes
  it back, so a start without a stop has gone downstream.
\<close>

theorem short_hold_start_forwarded:
  "run 3640 [(1000, KeyDown 3640), (1150, KeyUp 3640)] registered
   = (\<lparr>isKeyHeld = False, lastKeyDownTime = 1000, lastKeyUpTime = 0,
        recordingStartTime = 1000, onStart = Some ''start'', onStop = Some ''stop''\<rparr>,
      [ConsoleLog ''Push-to-talk: START'', CallStart ''start'',
       ConsoleLog ''Recording too short, ignoring''])
   \<and> (1150::int) - 1000 < minRecordingMs (CONFIG 3640)
   \<and> callbacks (snd (run 3640 [(1000, KeyDown 3640), (1150, KeyUp 3640)] registered))
       = [CallStart ''start'']"
  by (simp add: registered_simp handleKeyDown_def handleKeyUp_def
      isDebounced_def CONFIG_def callStart_def callbacks_def)

text \<open>
  C2. An engagement that arrives while the key is held is ignored: the state is unchanged
  and nothing is invoked or queued. Over every sequence of key events, from every state,
  the start callback fires at most once more than the held flag is released; and when
  the sequence begins with the key held (that is, after a start), a start callback can
  fire only if the held flag was released in between.
\<close>

theorem no_second_start_while_held:
  "(isKeyHeld s \<longrightarrow> handleKeyDown AltRight now keycode s = (s, [])) \<and>
   starts (snd (run AltRight evs s)) \<le> releases AltRight evs s + 1 \<and>
   (isKeyHeld s \<and> 0 < starts (snd (run AltRight evs s)) \<longrightarrow> 0 < releases AltRight evs s)"
proof -
  have bal: "starts (snd (run AltRight evs s)) + (if isKeyHeld s then 1 else 0)
     \<le> releases AltRight evs s + (if isKeyHeld (fst (run AltRight evs s)) then 1 else 0)"
    by (rule run_balance)
  have ignored: "isKeyHeld s \<longrightarrow> handleKeyDown AltRight now keycode s = (s, [])"
    by (simp add: handleKeyDown_def)
  have bound: "starts (snd (run AltRight evs s)) \<le> releases AltRight evs s + 1"
    using bal by (simp split: if_splits)
  have between: "isKeyHeld s \<and> 0 < starts (snd (run AltRight evs s))
      \<longrightarrow> 0 < releases AltRight evs s"
    using bal by (simp split: if_splits)
  from ignored bound between show ?thesis by blast
qed

theorem no_second_start_while_held_witness:
  "isKeyHeld held
   \<and> handleKeyDown 3640 1100 3640 held = (held, [])
   \<and> 0 < starts (snd (run 3640 [(1300, KeyUp 3640), (1400, KeyDown 3640)] held))
   \<and> 0 < releases 3640 [(1300, KeyUp 3640), (1400, KeyDown 3640)] held"
proof -
  have h1: "isKeyHeld held" by (simp add: held_simp)
  have h2: "0 < starts (snd (run 3640 [(1300, KeyUp 3640), (1400, KeyDown 3640)] held))"
    by (simp add: held_simp handleKeyDown_def handleKeyUp_def isDebounced_def CONFIG_def
        callStart_def callStop_def starts_def)
  show ?thesis
    using h1 h2
      no_second_start_while_held [of held 3640 1100 3640
        "[(1300, KeyUp 3640), (1400, KeyDown 3640)]"]
    by simp
qed

text \<open>
  Debouncing across an arbitrary interleaving: as long as every event of a run arrives
  less than \<open>debounceMs\<close> after the last accepted key-down, no start callback is invoked
  in the run; likewise for key-up and the stop callback.
\<close>

lemma no_start_within_window:
  "\<forall>p \<in> set evs. fst p - lastKeyDownTime s < debounceMs (CONFIG k) \<Longrightarrow>
     filter isStart (snd (run k evs s)) = [] \<and> lastKeyDownTime (fst (run k evs s)) = lastKeyDownTime s"
proof (induction evs arbitrary: s)
  case Nil
  show ?case by simp
next
  case (Cons a evs)
  obtain now ev where a: "a = (now, ev)" by (cases a)
  obtain s1 e1 where d: "dispatch k now ev s = (s1, e1)" by (cases "dispatch k now ev s")
  have near: "now - lastKeyDownTime s < debounceMs (CONFIG k)"
    using Cons.prems a by simp
  have step: "filter isStart e1 = [] \<and> lastKeyDownTime s1 = lastKeyDownTime s"
    using d near
    by (cases ev)
       (auto simp add: handleKeyDown_def handleKeyUp_def isDebounced_def callStop_def
          split: if_splits option.splits)
  then have "\<forall>p \<in> set evs. fst p - lastKeyDownTime s1 < debounceMs (CONFIG k)"
    using Cons.prems by simp
  from Cons.IH [OF this] step a d show ?case
    by (cases "run k evs s1") simp
qed

lemma no_stop_within_window:
  "\<forall>p \<in> set evs. fst p - lastKeyUpTime s < debounceMs (CONFIG k) \<Longrightarrow>
     filter isStop (snd (run k evs s)) = [] \<and> lastKeyUpTime (fst (run k evs s)) = lastKeyUpTime s"
proof (induction evs arbitrary: s)
  case Nil
  show ?case by simp
next
  case (Cons a evs)
  obtain now ev where a: "a = (now, ev)" by (cases a)
  obtain s1 e1 where d: "dispatch k now ev s = (s1, e1)" by (cases "dispatch k now ev s")
  have near: "now - lastKeyUpTime s < debounceMs (CONFIG k)"
    using Cons.prems a by simp
  have step: "filter isStop e1 = [] \<and> lastKeyUpTime s1 = lastKeyUpTime s"
    using d near
    by (cases ev)
       (auto simp add: handleKeyDown_def handleKeyUp_def isDebounced_def callStart_def
          split: if_splits option.splits)
  then have "\<forall>p \<in> set evs. fst p - lastKeyUpTime s1 < debounceMs (CONFIG k)"
    using Cons.prems by simp
  from Cons.IH [OF this] step a d show ?case
    by (cases "run k evs s1") simp
qed

text \<open>
  C3. Take a signal that is accepted as a logical event at time \<open>t\<close>, and let any further
  signals follow it, each less than \<open>debounceMs\<close> after \<open>t\<close>: replays of the same signal,
  signals of the other kind, other keys, in any order (so a down/up/down bounce is
  included). Then the whole burst invokes the callback of the first signal's kind exactly
  once: an accepted key-down and everything in its window give one start, an accepted
  key-up and everything in its window give one stop.
\<close>

theorem debounce_window_one_event:
  assumes "key = pushToTalkKey (CONFIG AltRight)"
    and "\<forall>p \<in> set evs. fst p - t < debounceMs (CONFIG AltRight)"
  shows "(\<not> isKeyHeld s \<and> \<not> isDebounced AltRight t (lastKeyDownTime s) \<and> onStart s = Some f
            \<longrightarrow> filter isStart (snd (run AltRight ((t, KeyDown key) # evs) s)) = [CallStart f])
       \<and> (isKeyHeld s \<and> \<not> isDebounced AltRight t (lastKeyUpTime s)
            \<and> minRecordingMs (CONFIG AltRight) \<le> t - recordingStartTime s \<and> onStop s = Some g
            \<longrightarrow> filter isStop (snd (run AltRight ((t, KeyUp key) # evs) s)) = [CallStop g])"
proof (intro conjI impI)
  assume a: "\<not> isKeyHeld s \<and> \<not> isDebounced AltRight t (lastKeyDownTime s) \<and> onStart s = Some f"
  define s1 where "s1 = s\<lparr>isKeyHeld := True, lastKeyDownTime := t, recordingStartTime := t\<rparr>"
  have first: "handleKeyDown AltRight t key s
      = (s1, [ConsoleLog ''Push-to-talk: START'', CallStart f])"
    using a assms(1) by (simp add: handleKeyDown_def callStart_def s1_def)
  have "\<forall>p \<in> set evs. fst p - lastKeyDownTime s1 < debounceMs (CONFIG AltRight)"
    using assms(2) by (simp add: s1_def)
  then have rest: "filter isStart (snd (run AltRight evs s1)) = []"
    using no_start_within_window [of evs s1 AltRight] by simp
  show "filter isStart (snd (run AltRight ((t, KeyDown key) # evs) s)) = [CallStart f]"
    using first rest by (cases "run AltRight evs s1") simp
next
  assume a: "isKeyHeld s \<and> \<not> isDebounced AltRight t (lastKeyUpTime s)
      \<and> minRecordingMs (CONFIG AltRight) \<le> t - recordingStartTime s \<and> onStop s = Some g"
  define s1 where "s1 = s\<lparr>isKeyHeld := False, lastKeyUpTime := t\<rparr>"
  have first: "handleKeyUp AltRight t key s
      = (s1, [ConsoleLog ''Push-to-talk: STOP'', CallStop g])"
    using a assms(1) by (simp add: handleKeyUp_def callStop_def s1_def)
  have "\<forall>p \<in> set evs. fst p - lastKeyUpTime s1 < debounceMs (CONFIG AltRight)"
    using assms(2) by (simp add: s1_def)
  then have rest: "filter isStop (snd (run AltRight evs s1)) = []"
    using no_stop_within_window [of evs s1 AltRight] by simp
  show "filter isStop (snd (run AltRight ((t, KeyUp key) # evs) s)) = [CallStop g]"
    using first rest by (cases "run AltRight evs s1") simp
qed

theorem debounce_window_one_event_witness:
  "(3640::int) = pushToTalkKey (CONFIG 3640)
   \<and> (1010::int) - 1000 < debounceMs (CONFIG 3640)
   \<and> (1020::int) - 1000 < debounceMs (CONFIG 3640)
   \<and> (1030::int) - 1000 < debounceMs (CONFIG 3640)
   \<and> \<not> isKeyHeld registered
   \<and> \<not> isDebounced 3640 1000 (lastKeyDownTime registered)
   \<and> onStart registered = Some ''start''
   \<and> filter isStart (snd (run 3640
         [(1000, KeyDown 3640), (1010, KeyDown 3640), (1020, KeyUp 3640), (1030, KeyDown 3640)]
         registered)) = [CallStart ''start'']
   \<and> (1310::int) - 1300 < debounceMs (CONFIG 3640)
   \<and> (1320::int) - 1300 < debounceMs (CONFIG 3640)
   \<and> (1330::int) - 1300 < debounceMs (CONFIG 3640)
   \<and> isKeyHeld held
   \<and> \<not> isDebounced 3640 1300 (lastKeyUpTime held)
   \<and> minRecordingMs (CONFIG 3640) \<le> 1300 - recordingStartTime held
   \<and> onStop held = Some ''stop''
   \<and> filter isStop (snd (run 3640
         [(1300, KeyUp 3640), (1310, KeyUp 3640), (1320, KeyDown 3640), (1330, KeyUp 3640)]
         held)) = [CallStop ''stop'']"
proof -
  have k: "(3640::int) = pushToTalkKey (CONFIG 3640)" by (simp add: CONFIG_def)
  have w1: "\<forall>p \<in> set [(1010::int, KeyDown 3640), (1020, KeyUp 3640), (1030, KeyDown 3640)].
      fst p - 1000 < debounceMs (CONFIG 3640)"
    by (simp add: CONFIG_def)
  have w2: "\<forall>p \<in> set [(1310::int, KeyUp 3640), (1320, KeyDown 3640), (1330, KeyUp 3640)].
      fst p - 1300 < debounceMs (CONFIG 3640)"
    by (simp add: CONFIG_def)
  have d: "\<not> isKeyHeld registered \<and> \<not> isDebounced 3640 1000 (lastKeyDownTime registered)
      \<and> onStart registered = Some ''start''"
    by (simp add: registered_simp isDebounced_def CONFIG_def)
  have u: "isKeyHeld held \<and> \<not> isDebounced 3640 1300 (lastKeyUpTime held)
      \<and> minRecordingMs (CONFIG 3640) \<le> 1300 - recordingStartTime held
      \<and> onStop held = Some ''stop''"
    by (simp add: held_simp isDebounced_def CONFIG_def)
  have c: "(1010::int) - 1000 < debounceMs (CONFIG 3640) \<and> (1020::int) - 1000 < debounceMs (CONFIG 3640)
      \<and> (1030::int) - 1000 < debounceMs (CONFIG 3640) \<and> (1310::int) - 1300 < debounceMs (CONFIG 3640)
      \<and> (1320::int) - 1300 < debounceMs (CONFIG 3640) \<and> (1330::int) - 1300 < debounceMs (CONFIG 3640)"
    by (simp add: CONFIG_def)
  from debounce_window_one_event [OF k w1, of registered "''start''" undefined] d
  have r1: "filter isStart (snd (run 3640
         [(1000, KeyDown 3640), (1010, KeyDown 3640), (1020, KeyUp 3640), (1030, KeyDown 3640)]
         registered)) = [CallStart ''start'']"
    by blast
  from debounce_window_one_event [OF k w2, of held undefined "''stop''"] u
  have r2: "filter isStop (snd (run 3640
         [(1300, KeyUp 3640), (1310, KeyUp 3640), (1320, KeyDown 3640), (1330, KeyUp 3640)]
         held)) = [CallStop ''stop'']"
    by blast
  show ?thesis
    by (insert k c d u r1 r2, (elim conjE)?, intro conjI, assumption+)
qed

text \<open>
  C9. A key event whose keycode is not the push-to-talk key leaves the state as it is and
  invokes nothing, on key-down and on key-up alike.
\<close>

theorem unknown_keycode_dropped:
  "keycode \<noteq> pushToTalkKey (CONFIG AltRight) \<Longrightarrow>
     handleKeyDown AltRight now keycode s = (s, []) \<and>
     handleKeyUp AltRight now keycode s = (s, [])"
  by (simp add: handleKeyDown_def handleKeyUp_def)

theorem unknown_keycode_dropped_witness:
  "(30::int) \<noteq> pushToTalkKey (CONFIG 3640)
   \<and> handleKeyDown 3640 1500 30 held = (held, [])
   \<and> handleKeyUp 3640 1500 30 held = (held, [])"
proof -
  have h: "(30::int) \<noteq> pushToTalkKey (CONFIG 3640)" by (simp add: CONFIG_def)
  show ?thesis using h unknown_keycode_dropped [OF h, of 1500 held] by simp
qed

section \<open>Properties of the status values and the window manager\<close>

lemma show_window_visible: "isVisible (fst (show_window lay wm))"
  by (cases "window wm")
     (simp_all add: show_window_def create_def resetHeightSync_def clearPreviousContent_def
        showInactive_def isVisible_def Let_def)












text \<open>
  C5. Whatever the state of the window manager, \<open>sendStatus\<close> on \<open>idle\<close> returns normally,
  does nothing but hide the window (when there is one), sends nothing to the renderer,
  and leaves the window not visible.
\<close>

theorem idle_hides_and_sends_nothing:
  "\<exists>wm' es. sendStatus lay ''idle'' wm = Inr (wm', es)
      \<and> es = (if window wm = None then [] else [HideWindow])
      \<and> filter isSend es = []
      \<and> \<not> isVisible wm'"
  by (cases "window wm") (simp_all add: sendStatus_def shouldBeVisible_def hide_def isVisible_def)

lemma show_window_setup:
  "count_list (snd (show_window lay wm)) ResetHeightSync = (if isVisible wm then 0 else 1) \<and>
   count_list (snd (show_window lay wm)) ClearPreviousContent = (if isVisible wm then 0 else 1)"
  by (cases "window wm")
     (simp_all add: show_window_def create_def resetHeightSync_def clearPreviousContent_def
        showInactive_def isVisible_def Let_def)

lemma hide_setup:
  "\<not> isVisible (fst (hide lay wm)) \<and>
   count_list (snd (hide lay wm)) ResetHeightSync = 0 \<and>
   count_list (snd (hide lay wm)) ClearPreviousContent = 0"
  by (cases "window wm") (simp_all add: hide_def isVisible_def)

lemma call_setup:
  "count_list (snd (call lay c wm)) ResetHeightSync
     = (if \<not> isVisible wm \<and> isVisible (fst (call lay c wm)) then 1 else 0) \<and>
   count_list (snd (call lay c wm)) ClearPreviousContent
     = (if \<not> isVisible wm \<and> isVisible (fst (call lay c wm)) then 1 else 0)"
  by (cases c) (simp_all add: show_window_setup show_window_visible hide_setup)

lemma calls_setup:
  "count_list (snd (calls lay cs wm)) ResetHeightSync = edges lay cs wm \<and>
   count_list (snd (calls lay cs wm)) ClearPreviousContent = edges lay cs wm"
proof (induction cs arbitrary: wm)
  case Nil
  show ?case by simp
next
  case (Cons c cs)
  obtain wm1 e1 where c: "call lay c wm = (wm1, e1)" by (cases "call lay c wm")
  obtain wm2 e2 where r: "calls lay cs wm1 = (wm2, e2)" by (cases "calls lay cs wm1")
  from call_setup [of lay c wm] c Cons.IH [of wm1] r show ?case
    by (simp add: Let_def)
qed

lemma edges_shows_visible:
  "isVisible wm \<Longrightarrow> edges lay (replicate n CallShow) wm = 0"
  by (induction n arbitrary: wm) (simp_all add: Let_def show_window_visible)

lemma edges_shows:
  "edges lay (replicate (Suc n) CallShow) wm = (if isVisible wm then 0 else 1)"
  by (simp add: Let_def show_window_visible edges_shows_visible)

text \<open>
  For example, two \<open>show()\<close> calls on a manager that has no window yet create the
  window, set it up once, and show it; the second call only shows it again.
\<close>

lemma show_twice_example:
  "snd (calls exampleLayout [CallShow, CallShow] (windowManager exampleLayout))
   = [Create, ResetHeightSync, ClearPreviousContent, ShowInactive, ShowInactive]"
  by (simp add: windowManager_def show_window_def create_def resetHeightSync_def
      clearPreviousContent_def showInactive_def isVisible_def Let_def)

text \<open>
  C6. Over every sequence of \<open>show()\<close> and \<open>hide()\<close> calls, each of the two setup steps
  runs as many times as the window goes from hidden to visible. In particular a run of
  one or more \<open>show()\<close> calls performs the setup once if it starts hidden and not at all
  if the window is already visible.
\<close>

theorem show_setup_once_per_edge:
  "count_list (snd (calls lay cs wm)) ResetHeightSync = edges lay cs wm
   \<and> count_list (snd (calls lay cs wm)) ClearPreviousContent = edges lay cs wm
   \<and> count_list (snd (calls lay (replicate (Suc n) CallShow) wm)) ResetHeightSync
       = (if isVisible wm then 0 else 1)
   \<and> count_list (snd (calls lay (replicate (Suc n) CallShow) wm)) ClearPreviousContent
       = (if isVisible wm then 0 else 1)"
  using calls_setup [of lay cs wm] calls_setup [of lay "replicate (Suc n) CallShow" wm]
    edges_shows [of lay n wm]
  by simp

text \<open>
  C7, as the code has it. On an existing window, a requested content height is accepted
  (one bounds change, to the target height \<open>min (CHROME_HEIGHT + contentHeight)
  MAX_HEIGHT\<close>, which becomes the last applied height) exactly when the target differs
  from the last applied height by at least the debounce threshold; otherwise nothing
  changes. An accepted height is at most \<open>MAX_HEIGHT\<close>; it is at least \<open>MIN_HEIGHT\<close>
  when \<open>CHROME_HEIGHT + contentHeight\<close> is (and \<open>MIN_HEIGHT \<le> MAX_HEIGHT\<close>): the code
  applies no lower clamp of its own.
\<close>

theorem height_accepted_iff:
  assumes "window wm = Some w"
  shows "((\<exists>wm' b. setContentHeight lay contentHeight wm = Inr (wm', [SetBounds b])
              \<and> rect_height b = targetHeightOf lay contentHeight
              \<and> currentHeight wm' = targetHeightOf lay contentHeight)
          \<longleftrightarrow> DEBOUNCE_THRESHOLD lay \<le> \<bar>targetHeightOf lay contentHeight - currentHeight wm\<bar>)
    \<and> (setContentHeight lay contentHeight wm = Inr (wm, [])
          \<longleftrightarrow> \<bar>targetHeightOf lay contentHeight - currentHeight wm\<bar> < DEBOUNCE_THRESHOLD lay)
    \<and> targetHeightOf lay contentHeight \<le> MAX_HEIGHT lay
    \<and> (MIN_HEIGHT lay \<le> MAX_HEIGHT lay \<and> MIN_HEIGHT lay \<le> CHROME_HEIGHT lay + contentHeight
          \<longrightarrow> MIN_HEIGHT lay \<le> targetHeightOf lay contentHeight)"
  using assms
  by (auto simp add: setContentHeight_def targetHeightOf_def Let_def split: if_splits)

theorem height_accepted_iff_witness:
  "window exampleWindow
     = Some \<lparr>visible = True,
         bounds = \<lparr>rect_x = 100, rect_y = 930, rect_width = 400, rect_height = 100\<rparr>\<rparr>
   \<and> DEBOUNCE_THRESHOLD exampleLayout \<le> \<bar>targetHeightOf exampleLayout 65 - currentHeight exampleWindow\<bar>
   \<and> setContentHeight exampleLayout 65 exampleWindow
       = Inr (\<lparr>window = Some \<lparr>visible = True,
                  bounds = \<lparr>rect_x = 100, rect_y = 925, rect_width = 400, rect_height = 105\<rparr>\<rparr>,
                currentHeight = 105\<rparr>,
              [SetBounds \<lparr>rect_x = 100, rect_y = 925, rect_width = 400, rect_height = 105\<rparr>])
   \<and> \<bar>targetHeightOf exampleLayout 62 - currentHeight exampleWindow\<bar> < DEBOUNCE_THRESHOLD exampleLayout
   \<and> setContentHeight exampleLayout 62 exampleWindow = Inr (exampleWindow, [])
   \<and> MIN_HEIGHT exampleLayout \<le> MAX_HEIGHT exampleLayout
   \<and> MIN_HEIGHT exampleLayout \<le> CHROME_HEIGHT exampleLayout + 65
   \<and> MIN_HEIGHT exampleLayout \<le> targetHeightOf exampleLayout 65
   \<and> targetHeightOf exampleLayout 65 \<le> MAX_HEIGHT exampleLayout"
proof -
  have h: "window exampleWindow
     = Some \<lparr>visible = True,
         bounds = \<lparr>rect_x = 100, rect_y = 930, rect_width = 400, rect_height = 100\<rparr>\<rparr>"
    by (simp add: exampleWindow_def)
  have a: "setContentHeight exampleLayout 65 exampleWindow
       = Inr (\<lparr>window = Some \<lparr>visible = True,
                  bounds = \<lparr>rect_x = 100, rect_y = 925, rect_width = 400, rect_height = 105\<rparr>\<rparr>,
                currentHeight = 105\<rparr>,
              [SetBounds \<lparr>rect_x = 100, rect_y = 925, rect_width = 400, rect_height = 105\<rparr>])"
    by (simp add: setContentHeight_def targetHeightOf_def exampleWindow_def exampleLayout_def Let_def)
  have t: "targetHeightOf exampleLayout 65 = 105" "targetHeightOf exampleLayout 62 = 102"
    "currentHeight exampleWindow = 100" "DEBOUNCE_THRESHOLD exampleLayout = 4"
    "MIN_HEIGHT exampleLayout = 60" "MAX_HEIGHT exampleLayout = 400"
    "CHROME_HEIGHT exampleLayout = 40"
    by (simp_all add: targetHeightOf_def exampleWindow_def exampleLayout_def)
  show ?thesis
    using h a height_accepted_iff [OF h, of exampleLayout 62]
      height_accepted_iff [OF h, of exampleLayout 65]
    unfolding t by simp
qed

text \<open>
  C7 as stated fails on both counts. With a threshold of 4 px and a last applied height
  of 100, a request whose target is 104 differs by exactly the threshold, not by more,
  and is accepted. A request whose target is 40 is accepted although \<open>MIN_HEIGHT\<close> is 60.
\<close>

theorem height_threshold_boundary_accepted:
  "DEBOUNCE_THRESHOLD exampleLayout = 4
   \<and> currentHeight exampleWindow = 100
   \<and> targetHeightOf exampleLayout 64 = 104
   \<and> setContentHeight exampleLayout 64 exampleWindow
       = Inr (\<lparr>window = Some \<lparr>visible = True,
                  bounds = \<lparr>rect_x = 100, rect_y = 926, rect_width = 400, rect_height = 104\<rparr>\<rparr>,
                currentHeight = 104\<rparr>,
              [SetBounds \<lparr>rect_x = 100, rect_y = 926, rect_width = 400, rect_height = 104\<rparr>])
   \<and> MIN_HEIGHT exampleLayout = 60
   \<and> setContentHeight exampleLayout 0 exampleWindow
       = Inr (\<lparr>window = Some \<lparr>visible = True,
                  bounds = \<lparr>rect_x = 100, rect_y = 990, rect_width = 400, rect_height = 40\<rparr>\<rparr>,
                currentHeight = 40\<rparr>,
              [SetBounds \<lparr>rect_x = 100, rect_y = 990, rect_width = 400, rect_height = 40\<rparr>])"
  by (simp add: setContentHeight_def targetHeightOf_def exampleWindow_def exampleLayout_def Let_def)

text \<open>
  C8. Every accepted height change puts the bottom edge of the window at
  \<open>screenHeight - BOTTOM_OFFSET\<close>, the new origin being that anchor less the new height.
  So the bottom edge of a window that is anchored there stays where it was, and any two
  accepted changes agree on it.
\<close>

theorem bottom_edge_fixed:
  assumes "window wm = Some w"
    and "setContentHeight lay contentHeight wm = Inr (wm', [SetBounds b])"
  shows "bottomEdge b = screenHeight lay - BOTTOM_OFFSET lay
    \<and> window wm' = Some (w\<lparr>bounds := b\<rparr>)
    \<and> rect_y b = screenHeight lay - BOTTOM_OFFSET lay - rect_height b
    \<and> (bottomEdge (bounds w) = screenHeight lay - BOTTOM_OFFSET lay
         \<longrightarrow> bottomEdge b = bottomEdge (bounds w))"
  using assms
  by (auto simp add: setContentHeight_def Let_def bottomEdge_def split: if_splits)

theorem bottom_edge_fixed_witness:
  "window exampleWindow
     = Some \<lparr>visible = True,
         bounds = \<lparr>rect_x = 100, rect_y = 930, rect_width = 400, rect_height = 100\<rparr>\<rparr>
   \<and> setContentHeight exampleLayout 65 exampleWindow
       = Inr (\<lparr>window = Some \<lparr>visible = True,
                  bounds = \<lparr>rect_x = 100, rect_y = 925, rect_width = 400, rect_height = 105\<rparr>\<rparr>,
                currentHeight = 105\<rparr>,
              [SetBounds \<lparr>rect_x = 100, rect_y = 925, rect_width = 400, rect_height = 105\<rparr>])
   \<and> bottomEdge \<lparr>rect_x = 100, rect_y = 930, rect_width = 400, rect_height = 100\<rparr>
       = screenHeight exampleLayout - BOTTOM_OFFSET exampleLayout
   \<and> bottomEdge \<lparr>rect_x = 100, rect_y = 925, rect_width = 400, rect_height = 105\<rparr>
       = bottomEdge \<lparr>rect_x = 100, rect_y = 930, rect_width = 400, rect_height = 100\<rparr>"
proof -
  have h: "window exampleWindow
     = Some \<lparr>visible = True,
         bounds = \<lparr>rect_x = 100, rect_y = 930, rect_width = 400, rect_height = 100\<rparr>\<rparr>"
    by (simp add: exampleWindow_def)
  have a: "setContentHeight exampleLayout 65 exampleWindow
       = Inr (\<lparr>window = Some \<lparr>visible = True,
                  bounds = \<lparr>rect_x = 100, rect_y = 925, rect_width = 400, rect_height = 105\<rparr>\<rparr>,
                currentHeight = 105\<rparr>,
              [SetBounds \<lparr>rect_x = 100, rect_y = 925, rect_width = 400, rect_height = 105\<rparr>])"
    by (simp add: setContentHeight_def targetHeightOf_def exampleWindow_def exampleLayout_def Let_def)
  have e: "bottomEdge \<lparr>rect_x = 100, rect_y = 930, rect_width = 400, rect_height = 100\<rparr>
       = screenHeight exampleLayout - BOTTOM_OFFSET exampleLayout"
    by (simp add: bottomEdge_def exampleLayout_def)
  show ?thesis
    using h a e bottom_edge_fixed [OF h a] by simp
qed

section \<open>Properties of the IPC handlers\<close>

text \<open>
  C10. Once the handlers are set up, an invoke on \<open>asr:start\<close> resolves to
  \<open>{success: true}\<close> for every event and every argument list (any config, or none), and
  so does an invoke on \<open>asr:stop\<close>; neither is rejected, and neither takes any action on
  the speech service.
\<close>

theorem asr_handlers_always_succeed:
  "invoke (setupAllIpcHandlers ipcMain) ASR_START event args = ([], Resolved \<lparr>success = True\<rparr>)
   \<and> invoke (setupAllIpcHandlers ipcMain) ASR_STOP event args = ([], Resolved \<lparr>success = True\<rparr>)"
  by (simp add: invoke_def setupAllIpcHandlers_def setupASRHandlers_def ipcMain_on_def
      ipcMain_handle_def ASR_START_def ASR_STOP_def)

end
